theory Spec2Isabelle
  imports Complex_Main "HOL-Library.Word"
begin

section \<open>Shared data: bytes, paths, files, Python errors\<close>

type_synonym byte = "8 word"
type_synonym path = string
type_synonym files = "path \<rightharpoonup> byte list"

text \<open>
  The errors the modelled code can meet; \<open>ConnectionRefusedError\<close> is the one
  \<open>UnityClient.send\<close> names.
\<close>

datatype py_error =
    FileNotFoundError
  | ConnectionRefusedError
  | OSError
  | StructError
  | TypeError
  | ValueError
  | ExtractionFailure
  | KeyboardInterrupt

text \<open>
  \<open>except Exception\<close> catches every error above but \<open>KeyboardInterrupt\<close>, which derives
  from \<open>BaseException\<close> only.
\<close>

definition is_exception :: "py_error \<Rightarrow> bool" where
  "is_exception e = (e \<noteq> KeyboardInterrupt)"

section \<open>volume.py: VolumeCalculator\<close>

text \<open>
  A loaded NIfTI label volume: the shape of the 3D array, the voxel values of
  \<open>get_fdata()\<close> (integer class ids) and the first three zooms of the header. Floating
  point numbers are modelled as exact reals.
\<close>

type_synonym voxel = "nat \<times> nat \<times> nat"

record nifti =
  shape :: "nat \<times> nat \<times> nat"
  fdata :: "voxel \<Rightarrow> int"
  zooms :: "real \<times> real \<times> real"

definition LIVER_LABEL :: int where
  "LIVER_LABEL = 8"

definition TUMOR_LABEL :: int where
  "TUMOR_LABEL = 9"

text \<open>
  \<open>nib.load\<close> belongs to the nibabel library, outside the repository. A file on disk
  carries the spacing its header stores, of any sign. On loading, the library checks the
  header and repairs a spacing that is not positive: a zero becomes 1 and a negative
  value its absolute value. A loaded volume therefore has positive zooms.
\<close>

definition repair_zoom :: "real \<Rightarrow> real" where
  "repair_zoom z = (if z = 0 then 1 else \<bar>z\<bar>)"

definition repair_header :: "nifti \<Rightarrow> nifti" where
  "repair_header nii =
     nii\<lparr>zooms := (repair_zoom (fst (zooms nii)), repair_zoom (fst (snd (zooms nii))),
                   repair_zoom (snd (snd (zooms nii))))\<rparr>"

definition nib_load :: "(path \<rightharpoonup> nifti) \<Rightarrow> path \<Rightarrow> py_error + nifti" where
  "nib_load disk p =
     (case disk p of None \<Rightarrow> Inl FileNotFoundError | Some nii \<Rightarrow> Inr (repair_header nii))"

text \<open>The voxels of an array of the given shape, in C (raster) order: last axis fastest.\<close>

definition indices :: "nat \<times> nat \<times> nat \<Rightarrow> voxel list" where
  "indices sh = (case sh of (nx, ny, nz) \<Rightarrow>
     concat (map (\<lambda>i. concat (map (\<lambda>j. map (\<lambda>k. (i, j, k)) [0..<nz]) [0..<ny])) [0..<nx]))"

text \<open>\<open>np.sum(a == v)\<close>: the number of voxels of the array holding the value.\<close>

definition count_eq :: "nat \<times> nat \<times> nat \<Rightarrow> (voxel \<Rightarrow> 'a) \<Rightarrow> 'a \<Rightarrow> nat" where
  "count_eq sh a v = length (filter (\<lambda>x. a x = v) (indices sh))"

text \<open>
  Python's \<open>round(x, 2)\<close>: scale by 100, round half to even, scale back. The numbers
  are exact reals here; where the exact value lies half-way between two hundredths, the
  binary float of the code may round the other way.
\<close>

definition round_half_even :: "real \<Rightarrow> int" where
  "round_half_even y =
     (let f = \<lfloor>y\<rfloor>; d = y - of_int f
      in if d < 1 / 2 then f else if 1 / 2 < d then f + 1 else if even f then f else f + 1)"

definition round2 :: "real \<Rightarrow> real" where
  "round2 x = of_int (round_half_even (x * 100)) / 100"

subsection \<open>Connected-component labelling\<close>

text \<open>
  Modelled from the spec: \<open>scipy.ndimage.label\<close> is a library function outside the
  repository. The call passes no structuring element, which is the library's default of
  face adjacency (6-connectivity in 3D); labels are numbered from 1 in the order in which
  a raster scan first meets each component.
\<close>

definition absdiff :: "nat \<Rightarrow> nat \<Rightarrow> nat" where
  "absdiff a b = (a - b) + (b - a)"

definition adjacent :: "voxel \<Rightarrow> voxel \<Rightarrow> bool" where
  "adjacent p q = (case p of (a, b, c) \<Rightarrow> case q of (x, y, z) \<Rightarrow>
     absdiff a x + absdiff b y + absdiff c z = 1)"

definition touches :: "voxel list \<Rightarrow> voxel \<Rightarrow> bool" where
  "touches blob q = (\<exists>p \<in> set blob. adjacent p q)"

lemma length_filter_not_less:
  "filter P xs \<noteq> [] \<Longrightarrow> length (filter (\<lambda>x. \<not> P x) xs) < length xs"
  by (induction xs) (auto simp: less_Suc_eq_le)

function grow :: "voxel list \<Rightarrow> voxel list \<Rightarrow> voxel list \<times> voxel list" where
  "grow blob rest =
     (if filter (touches blob) rest = [] then (blob, rest)
      else grow (blob @ filter (touches blob) rest) (filter (\<lambda>q. \<not> touches blob q) rest))"
  by pat_completeness auto
termination
  by (relation "measure (\<lambda>(blob, rest). length rest)") (simp_all add: length_filter_not_less)

declare grow.simps [simp del]

lemma grow_rest_length: "length (snd (grow blob rest)) \<le> length rest"
proof (induction blob rest rule: grow.induct)
  case (1 blob rest)
  show ?case
  proof (cases "filter (touches blob) rest = []")
    case True
    then show ?thesis by (simp add: grow.simps [of blob rest])
  next
    case False
    have "length (snd (grow blob rest))
            \<le> length (filter (\<lambda>q. \<not> touches blob q) rest)"
      using 1 False by (simp add: grow.simps [of blob rest])
    also have "\<dots> \<le> length rest" by simp
    finally show ?thesis .
  qed
qed

text \<open>
  The components of the mask voxels, given in raster order: the first voxel not yet
  labelled opens the next component, which takes every voxel connected to it.
\<close>

function components :: "voxel list \<Rightarrow> voxel list list" where
  "components [] = []"
| "components (p # rest) = fst (grow [p] rest) # components (snd (grow [p] rest))"
  by pat_completeness auto
termination
  by (relation "measure length") (simp_all add: grow_rest_length less_Suc_eq_le)

fun label_from :: "nat \<Rightarrow> voxel list list \<Rightarrow> voxel \<Rightarrow> nat" where
  "label_from k [] v = 0"
| "label_from k (c # cs) v = (if v \<in> set c then k else label_from (Suc k) cs v)"

text \<open>
  \<open>ndimage.label(mask)\<close> returns the labelled array (0 outside the mask) and the number
  of components.
\<close>

definition ndimage_label ::
  "nat \<times> nat \<times> nat \<Rightarrow> (voxel \<Rightarrow> nat) \<Rightarrow> (voxel \<Rightarrow> nat) \<times> nat" where
  "ndimage_label sh m =
     (let cs = components (filter (\<lambda>v. m v \<noteq> 0) (indices sh))
      in (\<lambda>v. if v \<in> set (indices sh) then label_from 1 cs v else 0, length cs))"

subsection \<open>VolumeCalculator.calculate\<close>

record tumor =
  tumor_id :: nat
  volume_ml :: real

record volume_metrics =
  liver_volume_ml :: real
  tumor_count :: nat
  tumors :: "tumor list"
  total_tumor_volume_ml :: real

text \<open>
  The loop \<open>for i in range(1, num_tumors + 1)\<close>: it appends one entry per component id
  and adds the rounded volume to the running total.
\<close>

fun tumor_loop ::
  "nat \<times> nat \<times> nat \<Rightarrow> (voxel \<Rightarrow> nat) \<Rightarrow> real \<Rightarrow> nat list \<Rightarrow> tumor list \<times> real
     \<Rightarrow> tumor list \<times> real" where
  "tumor_loop sh labeled_tumors voxel_volume_ml [] acc = acc"
| "tumor_loop sh labeled_tumors voxel_volume_ml (i # is) acc =
     (let tumor_voxels = count_eq sh labeled_tumors i;
          tumor_volume = round2 (of_nat tumor_voxels * voxel_volume_ml)
      in tumor_loop sh labeled_tumors voxel_volume_ml is
           (fst acc @ [\<lparr>tumor_id = i, volume_ml = tumor_volume\<rparr>], snd acc + tumor_volume))"

text \<open>Voxel volume in ml: the product of the three spacings in mm, divided by 1000.\<close>

definition voxel_volume :: "nifti \<Rightarrow> real" where
  "voxel_volume nii =
     (fst (zooms nii) * fst (snd (zooms nii)) * snd (snd (zooms nii))) / 1000"

text \<open>\<open>(data == tumor_label).astype(np.uint8)\<close>\<close>

definition tumor_mask :: "nifti \<Rightarrow> int \<Rightarrow> voxel \<Rightarrow> nat" where
  "tumor_mask nii tumor_label = (\<lambda>v. if fdata nii v = tumor_label then 1 else 0)"

definition calculate ::
  "(path \<rightharpoonup> nifti) \<Rightarrow> path \<Rightarrow> int \<Rightarrow> int \<Rightarrow> py_error + volume_metrics" where
  "calculate disk nifti_path liver_label tumor_label =
     (case nib_load disk nifti_path of
        Inl e \<Rightarrow> Inl e
      | Inr nii \<Rightarrow>
          (let sh = shape nii;
               voxel_volume_ml = voxel_volume nii;
               liver_voxels = count_eq sh (fdata nii) liver_label;
               liver = round2 (of_nat liver_voxels * voxel_volume_ml)
           in if 0 < count_eq sh (tumor_mask nii tumor_label) 1 then
                (let labeled = ndimage_label sh (tumor_mask nii tumor_label);
                     num_tumors = snd labeled;
                     r = tumor_loop sh (fst labeled) voxel_volume_ml [1..<num_tumors + 1] ([], 0)
                 in Inr \<lparr>liver_volume_ml = liver, tumor_count = num_tumors,
                          tumors = fst r, total_tumor_volume_ml = round2 (snd r)\<rparr>)
              else Inr \<lparr>liver_volume_ml = liver, tumor_count = 0,
                        tumors = [], total_tumor_volume_ml = 0\<rparr>))"

subsection \<open>Example volumes\<close>

definition one_liver_voxel :: nifti where
  "one_liver_voxel = \<lparr>shape = (1, 1, 1), fdata = (\<lambda>v. 8), zooms = (1, 1, 1)\<rparr>"

definition negative_spacing :: nifti where
  "negative_spacing = \<lparr>shape = (1, 1, 1), fdata = (\<lambda>v. 8), zooms = (- 10, 10, 10)\<rparr>"

definition two_blobs :: nifti where
  "two_blobs = \<lparr>shape = (3, 1, 1),
     fdata = (\<lambda>v. if v = (0, 0, 0) \<or> v = (2, 0, 0) then 9 else 0),
     zooms = (10, 10, 10)\<rparr>"


subsection \<open>Loading\<close>

lemma repair_zoom_positive: "0 < repair_zoom z"
  by (simp add: repair_zoom_def)

lemma repair_zoom_id: "0 < z \<Longrightarrow> repair_zoom z = z"
  by (simp add: repair_zoom_def)

lemma repair_header_idem: "repair_header (repair_header nii) = repair_header nii"
  by (simp add: repair_header_def repair_zoom_id repair_zoom_positive)

lemma voxel_volume_repaired: "0 < voxel_volume (repair_header nii)"
  by (simp add: voxel_volume_def repair_header_def repair_zoom_positive)

lemma nib_load_present: "disk p = Some raw \<Longrightarrow> nib_load disk p = Inr (repair_header raw)"
  by (simp add: nib_load_def)

lemma load_one_liver_voxel:
  "nib_load [''seg.nii'' \<mapsto> one_liver_voxel] ''seg.nii'' = Inr one_liver_voxel"
  by (simp add: nib_load_def repair_header_def repair_zoom_def one_liver_voxel_def)

lemma load_two_blobs: "nib_load [''seg.nii'' \<mapsto> two_blobs] ''seg.nii'' = Inr two_blobs"
  by (simp add: nib_load_def repair_header_def repair_zoom_def two_blobs_def)


subsection \<open>Rounding\<close>



lemma round_half_even_of_int: "round_half_even (of_int k) = k"
  by (simp add: round_half_even_def)

lemma round2_hundredth: "round2 (of_int k / 100) = of_int k / 100"
  by (simp add: round2_def round_half_even_of_int)

lemma round2_zero: "round2 0 = 0"
  using round2_hundredth [of 0] by simp

lemma round2_idem: "round2 (round2 x) = round2 x"
  unfolding round2_def [of x] by (rule round2_hundredth)

lemma sum_round2_hundredth:
  "\<exists>k::int. sum_list (map (\<lambda>i. round2 (f i)) is) = of_int k / 100"
proof (induction "is")
  case Nil
  have "sum_list (map (\<lambda>i. round2 (f i)) []) = of_int 0 / 100" by simp
  then show ?case by blast
next
  case (Cons i "is")
  then obtain k :: int where k: "sum_list (map (\<lambda>i. round2 (f i)) is) = of_int k / 100"
    by blast
  have "sum_list (map (\<lambda>i. round2 (f i)) (i # is)) = round2 (f i) + of_int k / 100"
    by (simp only: list.map sum_list.Cons k)
  also have "\<dots> = of_int (round_half_even (f i * 100) + k) / 100"
    by (simp add: round2_def add_divide_distrib)
  finally show ?case by blast
qed

lemma round2_sum_round2:
  "round2 (sum_list (map (\<lambda>i. round2 (f i)) is)) = sum_list (map (\<lambda>i. round2 (f i)) is)"
proof -
  obtain k :: int where "sum_list (map (\<lambda>i. round2 (f i)) is) = of_int k / 100"
    using sum_round2_hundredth by blast
  then show ?thesis by (simp only: round2_hundredth)
qed

lemma round2_small: "round2 (1 / 1000) = 0"
  by (simp add: round2_def round_half_even_def)

subsection \<open>The loop of calculate\<close>

lemma indices_unit: "indices (Suc 0, Suc 0, Suc 0) = [(0, 0, 0)]"
  by (simp add: indices_def)

lemma tumor_loop_acc:
  "tumor_loop sh lab vv is acc =
     (fst acc @ map (\<lambda>i. \<lparr>tumor_id = i, volume_ml = round2 (of_nat (count_eq sh lab i) * vv)\<rparr>) is,
      snd acc + sum_list (map (\<lambda>i. round2 (of_nat (count_eq sh lab i) * vv)) is))"
  by (induction "is" arbitrary: acc) (simp_all add: Let_def)

lemma calculate_loaded:
  assumes "nib_load disk p = Inr nii"
  shows "calculate disk p liver tum =
     Inr \<lparr>liver_volume_ml = round2 (of_nat (count_eq (shape nii) (fdata nii) liver) * voxel_volume nii),
          tumor_count =
            (if 0 < count_eq (shape nii) (tumor_mask nii tum) 1
             then snd (ndimage_label (shape nii) (tumor_mask nii tum)) else 0),
          tumors =
            (if 0 < count_eq (shape nii) (tumor_mask nii tum) 1
             then map (\<lambda>i. \<lparr>tumor_id = i, volume_ml = round2 (of_nat (count_eq (shape nii)
                    (fst (ndimage_label (shape nii) (tumor_mask nii tum))) i) * voxel_volume nii)\<rparr>)
                    [1..<snd (ndimage_label (shape nii) (tumor_mask nii tum)) + 1]
             else []),
          total_tumor_volume_ml =
            (if 0 < count_eq (shape nii) (tumor_mask nii tum) 1
             then round2 (sum_list (map (\<lambda>i. round2 (of_nat (count_eq (shape nii)
                    (fst (ndimage_label (shape nii) (tumor_mask nii tum))) i) * voxel_volume nii))
                    [1..<snd (ndimage_label (shape nii) (tumor_mask nii tum)) + 1]))
             else 0)\<rparr>"
  using assms by (simp add: calculate_def Let_def tumor_loop_acc)

subsection \<open>The example volumes, evaluated\<close>

lemma one_liver_calc:
  "calculate [''seg.nii'' \<mapsto> one_liver_voxel] ''seg.nii'' LIVER_LABEL TUMOR_LABEL
   = Inr \<lparr>liver_volume_ml = 0, tumor_count = 0, tumors = [], total_tumor_volume_ml = 0\<rparr>"
  unfolding calculate_loaded [OF load_one_liver_voxel]
  by (simp add: one_liver_voxel_def count_eq_def indices_unit
      LIVER_LABEL_def TUMOR_LABEL_def round2_small voxel_volume_def tumor_mask_def)

lemma negative_spacing_calc:
  "calculate [''seg.nii'' \<mapsto> negative_spacing] ''seg.nii'' LIVER_LABEL TUMOR_LABEL
   = Inr \<lparr>liver_volume_ml = 1, tumor_count = 0, tumors = [], total_tumor_volume_ml = 0\<rparr>"
proof -
  have ld: "nib_load [''seg.nii'' \<mapsto> negative_spacing] ''seg.nii''
      = Inr (repair_header negative_spacing)"
    by (simp add: nib_load_def)
  have r1: "round2 1 = 1" using round2_hundredth [of 100] by simp
  show ?thesis
    unfolding calculate_loaded [OF ld]
    by (simp add: repair_header_def repair_zoom_def negative_spacing_def count_eq_def
        indices_unit LIVER_LABEL_def TUMOR_LABEL_def voxel_volume_def tumor_mask_def r1)
qed

lemma indices_row3: "indices (3, Suc 0, Suc 0) = [(0, 0, 0), (1, 0, 0), (2, 0, 0)]"
  by (simp add: indices_def upt_rec)

lemma two_blobs_mask:
  "filter (\<lambda>v. tumor_mask two_blobs 9 v \<noteq> 0) [(0, 0, 0), (1, 0, 0), (2, 0, 0)]
     = [(0, 0, 0), (2, 0, 0)]"
  by (simp add: tumor_mask_def two_blobs_def)

lemma two_blobs_components: "components [(0, 0, 0), (2, 0, 0)] = [[(0, 0, 0)], [(2, 0, 0)]]"
  by (simp add: grow.simps touches_def adjacent_def absdiff_def)

lemma two_blobs_label:
  "ndimage_label (3, Suc 0, Suc 0) (tumor_mask two_blobs 9)
     = (\<lambda>v. if v \<in> set [(0, 0, 0), (1, 0, 0), (2, 0, 0)]
             then label_from 1 [[(0, 0, 0)], [(2, 0, 0)]] v else 0, 2)"
  unfolding ndimage_label_def Let_def indices_row3 two_blobs_mask two_blobs_components
  by simp

lemma two_blobs_calc:
  "calculate [''seg.nii'' \<mapsto> two_blobs] ''seg.nii'' LIVER_LABEL TUMOR_LABEL
   = Inr \<lparr>liver_volume_ml = 0, tumor_count = 2,
          tumors = [\<lparr>tumor_id = 1, volume_ml = 1\<rparr>, \<lparr>tumor_id = 2, volume_ml = 1\<rparr>],
          total_tumor_volume_ml = 2\<rparr>"
proof -
  have sh: "shape two_blobs = (3, Suc 0, Suc 0)" by (simp add: two_blobs_def)
  have vv: "voxel_volume two_blobs = 1" by (simp add: voxel_volume_def two_blobs_def)
  have r1: "round2 1 = 1" using round2_hundredth [of 100] by simp
  have r2: "round2 2 = 2" using round2_hundredth [of 200] by simp
  show ?thesis
    unfolding calculate_loaded [OF load_two_blobs] TUMOR_LABEL_def LIVER_LABEL_def sh
      two_blobs_label vv
    by (simp add: count_eq_def indices_row3 upt_rec r1 r2 round2_zero two_blobs_def
        tumor_mask_def)
qed








section \<open>Claims about VolumeCalculator.calculate\<close>

text \<open>
  Claim C2 says that a spacing with a zero or negative component makes \<open>calculate\<close> fail
  with an error. The code has no check of the spacing, and the loader repairs such a
  header instead of raising: for the one-voxel file with header spacing
  \<open>(-10, 10, 10)\<close> the call returns metrics, with a liver volume of \<open>1.0\<close> ml.
\<close>

theorem C2_counterexample:
  "fst (zooms negative_spacing) < 0
   \<and> calculate [''seg.nii'' \<mapsto> negative_spacing] ''seg.nii'' LIVER_LABEL TUMOR_LABEL
       = Inr \<lparr>liver_volume_ml = 1, tumor_count = 0, tumors = [], total_tumor_volume_ml = 0\<rparr>
   \<and> \<not> isl (calculate [''seg.nii'' \<mapsto> negative_spacing] ''seg.nii'' LIVER_LABEL TUMOR_LABEL)"
  by (simp add: negative_spacing_calc) (simp add: negative_spacing_def)

text \<open>
  Claim C2, amended: for a label volume file whose header spacing has a zero or negative
  component, \<open>calculate\<close> does not reject the input. The loader repairs the spacing (a
  zero becomes 1, a negative value its absolute value), and \<open>calculate\<close> returns the
  metrics of the same volume with that repaired spacing, whose voxel volume is positive.
\<close>

theorem C2_spacing_repaired_not_rejected:
  assumes "disk p = Some raw"
    and "fst (zooms raw) \<le> 0 \<or> fst (snd (zooms raw)) \<le> 0 \<or> snd (snd (zooms raw)) \<le> 0"
  shows "\<exists>r. calculate disk p liver tum = Inr r
     \<and> calculate (disk(p \<mapsto> repair_header raw)) p liver tum = Inr r
     \<and> zooms (repair_header raw)
         = (repair_zoom (fst (zooms raw)), repair_zoom (fst (snd (zooms raw))),
            repair_zoom (snd (snd (zooms raw))))
     \<and> 0 < fst (zooms (repair_header raw))
     \<and> 0 < fst (snd (zooms (repair_header raw)))
     \<and> 0 < snd (snd (zooms (repair_header raw)))
     \<and> 0 < voxel_volume (repair_header raw)"
proof -
  have l1: "nib_load disk p = Inr (repair_header raw)"
    using assms(1) by (rule nib_load_present)
  have l2: "nib_load (disk(p \<mapsto> repair_header raw)) p = Inr (repair_header raw)"
    by (simp add: nib_load_def repair_header_idem)
  have z: "zooms (repair_header raw)
         = (repair_zoom (fst (zooms raw)), repair_zoom (fst (snd (zooms raw))),
            repair_zoom (snd (snd (zooms raw))))"
    by (simp add: repair_header_def)
  show ?thesis
    unfolding calculate_loaded [OF l1] calculate_loaded [OF l2] z
    using voxel_volume_repaired [of raw] by (simp add: repair_zoom_positive)
qed

theorem C2_spacing_repaired_not_rejected_witness:
  "fst (zooms negative_spacing) \<le> 0
   \<and> calculate [''seg.nii'' \<mapsto> negative_spacing] ''seg.nii'' LIVER_LABEL TUMOR_LABEL
       = calculate [''seg.nii'' \<mapsto> repair_header negative_spacing] ''seg.nii''
           LIVER_LABEL TUMOR_LABEL
   \<and> zooms (repair_header negative_spacing) = (10, 10, 10)
   \<and> \<not> isl (calculate [''seg.nii'' \<mapsto> negative_spacing] ''seg.nii'' LIVER_LABEL TUMOR_LABEL)"
proof -
  have f: "[''seg.nii'' \<mapsto> negative_spacing] ''seg.nii'' = Some negative_spacing" by simp
  have neg: "fst (zooms negative_spacing) \<le> 0" by (simp add: negative_spacing_def)
  from neg have sp: "fst (zooms negative_spacing) \<le> 0 \<or> fst (snd (zooms negative_spacing)) \<le> 0
      \<or> snd (snd (zooms negative_spacing)) \<le> 0" by blast
  have z: "zooms (repair_header negative_spacing) = (10, 10, 10)"
    by (simp add: repair_header_def repair_zoom_def negative_spacing_def)
  from C2_spacing_repaired_not_rejected [of "[''seg.nii'' \<mapsto> negative_spacing]" "''seg.nii''"
      negative_spacing LIVER_LABEL TUMOR_LABEL, OF f sp]
  obtain r where
    "calculate [''seg.nii'' \<mapsto> negative_spacing] ''seg.nii'' LIVER_LABEL TUMOR_LABEL = Inr r"
    "calculate ([''seg.nii'' \<mapsto> negative_spacing](''seg.nii'' \<mapsto> repair_header negative_spacing))
       ''seg.nii'' LIVER_LABEL TUMOR_LABEL = Inr r"
    by blast
  then show ?thesis using neg z by simp
qed

text \<open>
  Claim C3 says that one liver voxel at spacing \<open>(1, 1, 1)\<close> mm gives
  \<open>liver_volume_ml = 0.001\<close>. The code rounds the volume to 2 decimals, so the result
  is \<open>0.0\<close>.
\<close>

theorem C3_counterexample:
  "calculate [''seg.nii'' \<mapsto> one_liver_voxel] ''seg.nii'' LIVER_LABEL TUMOR_LABEL
     = Inr \<lparr>liver_volume_ml = 0, tumor_count = 0, tumors = [], total_tumor_volume_ml = 0\<rparr>
   \<and> liver_volume_ml (projr (calculate [''seg.nii'' \<mapsto> one_liver_voxel] ''seg.nii''
        LIVER_LABEL TUMOR_LABEL)) \<noteq> 1 / 1000"
  by (simp add: one_liver_calc)

text \<open>
  Claim C3, amended: for a volume with exactly one voxel equal to the liver label and
  spacing \<open>(1, 1, 1)\<close> mm, \<open>calculate\<close> returns \<open>liver_volume_ml = 0.0\<close>: the exact volume
  of 0.001 ml rounded to 2 decimals.
\<close>

theorem C3_one_liver_voxel:
  assumes "nib_load disk p = Inr nii"
    and "zooms nii = (1, 1, 1)"
    and "count_eq (shape nii) (fdata nii) liver = 1"
  shows "\<exists>r. calculate disk p liver tum = Inr r \<and> liver_volume_ml r = round2 (1 / 1000)
     \<and> liver_volume_ml r = 0"
  unfolding calculate_loaded [OF assms(1)]
  by (simp add: voxel_volume_def assms(2) assms(3) round2_small)

theorem C3_one_liver_voxel_witness:
  "nib_load [''seg.nii'' \<mapsto> one_liver_voxel] ''seg.nii'' = Inr one_liver_voxel
   \<and> zooms one_liver_voxel = (1, 1, 1)
   \<and> count_eq (shape one_liver_voxel) (fdata one_liver_voxel) LIVER_LABEL = 1
   \<and> (\<exists>r. calculate [''seg.nii'' \<mapsto> one_liver_voxel] ''seg.nii'' LIVER_LABEL TUMOR_LABEL = Inr r
        \<and> liver_volume_ml r = round2 (1 / 1000) \<and> liver_volume_ml r = 0)"
proof -
  note ld = load_one_liver_voxel
  have z: "zooms one_liver_voxel = (1, 1, 1)" by (simp add: one_liver_voxel_def)
  have c: "count_eq (shape one_liver_voxel) (fdata one_liver_voxel) LIVER_LABEL = 1"
    by (simp add: one_liver_voxel_def count_eq_def indices_unit LIVER_LABEL_def)
  show ?thesis
    using ld z c C3_one_liver_voxel [OF ld z c, of TUMOR_LABEL] by blast
qed



section \<open>cache.py: PredictionCache\<close>

text \<open>
  The values a cache entry holds: strings (the prediction path, the timestamp), integers
  and the list of \<open>(organ_label, obj_path)\<close> pairs stored under \<open>"obj_files"\<close>.
\<close>

datatype pyval = PStr string | PInt int | PObjFiles "(int \<times> path) list"

type_synonym pydict = "string \<rightharpoonup> pyval"
type_synonym addr = nat

text \<open>
  Python dicts are objects on the heap, named by references. The cache index maps a
  content hash to the reference of the entry stored under it.
\<close>

record world =
  files :: "path \<rightharpoonup> byte list"
  heap :: "addr \<Rightarrow> pydict"

record prediction_cache =
  cache_file :: path
  cache_data :: "string \<rightharpoonup> addr"

text \<open>\<open>iter(lambda: f.read(4096), b"")\<close>: the file contents in chunks of at most n bytes.\<close>

function chunks :: "nat \<Rightarrow> byte list \<Rightarrow> byte list list" where
  "chunks n bs = (if n = 0 \<or> bs = [] then [] else take n bs # chunks n (drop n bs))"
  by pat_completeness auto
termination
  by (relation "measure (\<lambda>(n, bs). length bs)") auto

declare chunks.simps [simp del]

text \<open>
  \<open>_get_hash\<close>: the digest of the file, fed chunk by chunk; \<open>md5\<close> is the digest
  function of the library, taken as a parameter. A missing file raises.
\<close>

definition get_hash :: "(byte list \<Rightarrow> string) \<Rightarrow> (path \<rightharpoonup> byte list) \<Rightarrow> path \<Rightarrow> py_error + string" where
  "get_hash md5 fs file_path =
     (case fs file_path of
        None \<Rightarrow> Inl FileNotFoundError
      | Some bs \<Rightarrow> Inr (md5 (concat (chunks 4096 bs))))"

text \<open>
  \<open>for _, obj_path in entry.get("obj_files", [])\<close>: the pairs the loop runs over. A
  missing key is the empty list; a non-empty string yields characters, which do not
  unpack into two names; an integer is not iterable.
\<close>

definition obj_files_of :: "pydict \<Rightarrow> py_error + (int \<times> path) list" where
  "obj_files_of entry =
     (case entry ''obj_files'' of
        None \<Rightarrow> Inr []
      | Some (PObjFiles ps) \<Rightarrow> Inr ps
      | Some (PStr s) \<Rightarrow> (if s = [] then Inr [] else Inl ValueError)
      | Some (PInt i) \<Rightarrow> Inl TypeError)"

fun all_exist :: "(path \<rightharpoonup> byte list) \<Rightarrow> (int \<times> path) list \<Rightarrow> bool" where
  "all_exist fs [] = True"
| "all_exist fs (lp # rest) = (if fs (snd lp) = None then False else all_exist fs rest)"

definition is_cached ::
  "(byte list \<Rightarrow> string) \<Rightarrow> world \<Rightarrow> prediction_cache \<Rightarrow> path \<Rightarrow> py_error + bool" where
  "is_cached md5 w c image_path =
     (case get_hash md5 (files w) image_path of
        Inl e \<Rightarrow> Inl e
      | Inr key \<Rightarrow>
          (case cache_data c key of
             None \<Rightarrow> Inr False
           | Some a \<Rightarrow>
               (case obj_files_of (heap w a) of
                  Inl e \<Rightarrow> Inl e
                | Inr ps \<Rightarrow> Inr (all_exist (files w) ps))))"

definition get_entry ::
  "(byte list \<Rightarrow> string) \<Rightarrow> world \<Rightarrow> prediction_cache \<Rightarrow> path \<Rightarrow> py_error + addr option" where
  "get_entry md5 w c image_path =
     (case get_hash md5 (files w) image_path of
        Inl e \<Rightarrow> Inl e
      | Inr key \<Rightarrow> Inr (cache_data c key))"

text \<open>
  \<open>save\<close>: \<open>now\<close> is \<open>datetime.now().isoformat()\<close> and \<open>dumps\<close> the JSON serialisation
  of the index, both parameters. The entry is the dict the caller's reference names.
\<close>

definition save ::
  "(byte list \<Rightarrow> string) \<Rightarrow> ((string \<rightharpoonup> pydict) \<Rightarrow> byte list) \<Rightarrow> string
     \<Rightarrow> world \<Rightarrow> prediction_cache \<Rightarrow> path \<Rightarrow> addr \<Rightarrow> py_error + world \<times> prediction_cache" where
  "save md5 dumps now w c image_path result =
     (case get_hash md5 (files w) image_path of
        Inl e \<Rightarrow> Inl e
      | Inr key \<Rightarrow>
          (let h = (heap w)(result := (heap w result)(''timestamp'' \<mapsto> PStr now));
               cd = (cache_data c)(key \<mapsto> result);
               fs = (files w)(cache_file c \<mapsto> dumps (\<lambda>k. map_option h (cd k)))
           in Inr (w\<lparr>files := fs, heap := h\<rparr>, c\<lparr>cache_data := cd\<rparr>)))"

definition clear ::
  "((string \<rightharpoonup> pydict) \<Rightarrow> byte list) \<Rightarrow> world \<Rightarrow> prediction_cache \<Rightarrow> world \<times> prediction_cache" where
  "clear dumps w c =
     (w\<lparr>files := (files w)(cache_file c \<mapsto> dumps Map.empty)\<rparr>, c\<lparr>cache_data := Map.empty\<rparr>)"

lemma concat_chunks: "0 < n \<Longrightarrow> concat (chunks n bs) = bs"
proof (induction n bs rule: chunks.induct)
  case (1 n bs)
  show ?case
  proof (cases "bs = []")
    case True
    then show ?thesis by (simp add: chunks.simps [of n "[]"])
  next
    case False
    then have "concat (chunks n bs) = take n bs @ concat (chunks n (drop n bs))"
      using 1(2) by (simp add: chunks.simps [of n bs])
    also have "\<dots> = take n bs @ drop n bs"
      using 1 False by simp
    finally show ?thesis by simp
  qed
qed

lemma get_hash_present: "fs p = Some bs \<Longrightarrow> get_hash md5 fs p = Inr (md5 bs)"
  by (simp add: get_hash_def concat_chunks)

lemma all_exist_iff: "all_exist fs ps \<longleftrightarrow> (\<forall>lp \<in> set ps. fs (snd lp) \<noteq> None)"
  by (induction ps) auto


text \<open>
  Claim C9: for an image whose content hash is not a key of the index, \<open>get\<close> returns
  \<open>None\<close> and raises nothing (the image file itself being readable, so that it has a
  content hash).
\<close>

theorem C9_get_unknown_is_None:
  assumes "get_hash md5 (files w) image_path = Inr key"
    and "cache_data c key = None"
  shows "get_entry md5 w c image_path = Inr None"
  using assms by (simp add: get_entry_def)

text \<open>
  Claim C10: a successful \<open>save\<close> changes the dict its caller passed, in place: the key
  \<open>"timestamp"\<close> is set to the current time and every other key keeps its value; no
  other object changes; and the index holds, under the content hash, the very reference
  the caller passed (not a copy), every other index key being unchanged.
\<close>

theorem C10_save_mutates_in_place:
  assumes "save md5 dumps now w c image_path result = Inr (w', c')"
  shows "\<exists>key. get_hash md5 (files w) image_path = Inr key
     \<and> heap w' result = (heap w result)(''timestamp'' \<mapsto> PStr now)
     \<and> heap w' result ''timestamp'' = Some (PStr now)
     \<and> (\<forall>k. k \<noteq> ''timestamp'' \<longrightarrow> heap w' result k = heap w result k)
     \<and> cache_data c' key = Some result
     \<and> (\<forall>a. a \<noteq> result \<longrightarrow> heap w' a = heap w a)
     \<and> (\<forall>k. k \<noteq> key \<longrightarrow> cache_data c' k = cache_data c k)"
  using assms by (auto simp: save_def Let_def split: sum.splits)

lemma save_succeeds:
  assumes "files w image_path = Some bs"
  shows "save md5 dumps now w c image_path result =
     Inr (w\<lparr>files := (files w)(cache_file c \<mapsto> dumps (\<lambda>k. map_option
              ((heap w)(result := (heap w result)(''timestamp'' \<mapsto> PStr now)))
              (((cache_data c)(md5 bs \<mapsto> result)) k))),
            heap := (heap w)(result := (heap w result)(''timestamp'' \<mapsto> PStr now))\<rparr>,
          c\<lparr>cache_data := (cache_data c)(md5 bs \<mapsto> result)\<rparr>)"
  by (simp add: save_def get_hash_present [where fs = "files w", OF assms] Let_def)

lemma obj_files_of_timestamp:
  "obj_files_of (entry(''timestamp'' \<mapsto> v)) = obj_files_of entry"
  by (simp add: obj_files_of_def)

lemma is_cached_unknown:
  assumes "get_hash md5 (files w) image_path = Inr key" and "cache_data c key = None"
  shows "is_cached md5 w c image_path = Inr False"
  using assms by (simp add: is_cached_def)


text \<open>
  Claim C4: let the image be readable (and not the index file itself) and let every mesh
  file the entry lists exist. Right after a successful \<open>save\<close> of the entry,
  \<open>is_cached\<close> is true; once any one listed mesh file (other than the image) is deleted,
  \<open>is_cached\<close> is false. And \<open>is_cached\<close> is false whenever the content hash of the
  image is not a key of the index.
\<close>

theorem C4_is_cached_roundtrip:
  assumes img: "files w image_path = Some bs"
    and ne: "image_path \<noteq> cache_file c"
    and ent: "obj_files_of (heap w entry) = Inr ps"
    and ex: "\<forall>lp \<in> set ps. files w (snd lp) \<noteq> None"
    and sv: "save md5 dumps now w c image_path entry = Inr (w', c')"
  shows "is_cached md5 w' c' image_path = Inr True
     \<and> (\<forall>lp \<in> set ps. snd lp \<noteq> image_path \<longrightarrow>
           is_cached md5 (w'\<lparr>files := (files w')(snd lp := None)\<rparr>) c' image_path = Inr False)
     \<and> (\<forall>w0 c0 p key. get_hash md5 (files w0) p = Inr key \<and> cache_data c0 key = None
           \<longrightarrow> is_cached md5 w0 c0 p = Inr False)"
proof -
  note s = sv [unfolded save_succeeds [OF img], simplified]
  from s have w': "files w' = (files w)(cache_file c \<mapsto> dumps (\<lambda>k. map_option
              ((heap w)(entry := (heap w entry)(''timestamp'' \<mapsto> PStr now)))
              (((cache_data c)(md5 bs \<mapsto> entry)) k)))"
    and h': "heap w' = (heap w)(entry := (heap w entry)(''timestamp'' \<mapsto> PStr now))"
    and c': "cache_data c' = (cache_data c)(md5 bs \<mapsto> entry)"
    by auto
  have img': "files w' image_path = Some bs" using img ne by (simp add: w')
  have of': "obj_files_of (heap w' entry) = Inr ps"
    by (simp add: h' obj_files_of_timestamp ent)
  have all: "all_exist (files w') ps"
    using ex by (auto simp: all_exist_iff w')
  have 1: "is_cached md5 w' c' image_path = Inr True"
    by (simp add: is_cached_def get_hash_present [where fs = "files w'", OF img'] c' of' all)
  have 2: "is_cached md5 (w'\<lparr>files := (files w')(snd lp := None)\<rparr>) c' image_path = Inr False"
    if "lp \<in> set ps" "snd lp \<noteq> image_path" for lp
  proof -
    have i: "((files w')(snd lp := None)) image_path = Some bs"
      using img' that(2) by simp
    have "\<not> all_exist ((files w')(snd lp := None)) ps"
      using that(1) by (auto simp: all_exist_iff)
    then show ?thesis
      by (simp add: is_cached_def get_hash_present [where fs = "(files w')(snd lp := None)", OF i] c' of')
  qed
  show ?thesis using 1 2 is_cached_unknown by blast
qed

definition toy_md5 :: "byte list \<Rightarrow> string" where
  "toy_md5 bs = replicate (length bs) CHR ''f''"

definition toy_dumps :: "(string \<rightharpoonup> pydict) \<Rightarrow> byte list" where
  "toy_dumps index = []"

definition example_entry :: pydict where
  "example_entry = [''prediction_path'' \<mapsto> PStr ''predictions/img_pred.nii'',
                    ''obj_files'' \<mapsto> PObjFiles [(8, ''unity_assets/img_liver.obj'')]]"

definition example_world :: world where
  "example_world = \<lparr>files = [''img.nii'' \<mapsto> [1, 2, 3], ''unity_assets/img_liver.obj'' \<mapsto> [7]],
                     heap = (\<lambda>a. example_entry)\<rparr>"

definition example_cache :: prediction_cache where
  "example_cache = \<lparr>cache_file = ''prediction_cache/cache_index.json'', cache_data = Map.empty\<rparr>"

definition saved_state :: "world \<times> prediction_cache" where
  "saved_state = projr (save toy_md5 toy_dumps ''2024-05-01T10:00:00'' example_world
     example_cache ''img.nii'' 0)"

lemma example_image: "files example_world ''img.nii'' = Some [1, 2, 3]"
  by (simp add: example_world_def)

lemma example_save:
  "save toy_md5 toy_dumps ''2024-05-01T10:00:00'' example_world example_cache ''img.nii'' 0
     = Inr (fst saved_state, snd saved_state)"
  unfolding saved_state_def save_succeeds [OF example_image] by simp

lemma example_obj_files:
  "obj_files_of (heap example_world 0) = Inr [(8, ''unity_assets/img_liver.obj'')]"
  by (simp add: example_world_def example_entry_def obj_files_of_def)

theorem C4_is_cached_roundtrip_witness:
  "is_cached toy_md5 (fst saved_state) (snd saved_state) ''img.nii'' = Inr True
   \<and> is_cached toy_md5
        ((fst saved_state)\<lparr>files := (files (fst saved_state))(''unity_assets/img_liver.obj'' := None)\<rparr>)
        (snd saved_state) ''img.nii'' = Inr False"
proof -
  have ne: "''img.nii'' \<noteq> cache_file example_cache" by (simp add: example_cache_def)
  have ex: "\<forall>lp \<in> set [(8, ''unity_assets/img_liver.obj'')]. files example_world (snd lp) \<noteq> None"
    by (simp add: example_world_def)
  note t = C4_is_cached_roundtrip [OF example_image ne example_obj_files ex example_save]
  from t have "is_cached toy_md5 (fst saved_state) (snd saved_state) ''img.nii'' = Inr True"
    by blast
  moreover from t have "is_cached toy_md5
        ((fst saved_state)\<lparr>files := (files (fst saved_state))(snd (8 :: int, ''unity_assets/img_liver.obj'') := None)\<rparr>)
        (snd saved_state) ''img.nii'' = Inr False"
    by simp
  ultimately show ?thesis by simp
qed

theorem C9_get_unknown_is_None_witness:
  "get_hash toy_md5 (files example_world) ''img.nii'' = Inr ''fff''
   \<and> cache_data example_cache ''fff'' = None
   \<and> get_entry toy_md5 example_world example_cache ''img.nii'' = Inr None"
proof -
  have h: "get_hash toy_md5 (files example_world) ''img.nii'' = Inr ''fff''"
    using get_hash_present [where fs = "files example_world" and ?md5.0 = toy_md5, OF example_image]
    by (simp add: toy_md5_def)
  have n: "cache_data example_cache ''fff'' = None" by (simp add: example_cache_def)
  show ?thesis using h n C9_get_unknown_is_None [OF h n] by simp
qed

theorem C10_save_mutates_in_place_witness:
  "heap (fst saved_state) 0 ''timestamp'' = Some (PStr ''2024-05-01T10:00:00'')
   \<and> heap (fst saved_state) 0 ''obj_files'' = heap example_world 0 ''obj_files''
   \<and> cache_data (snd saved_state) ''fff'' = Some 0"
proof -
  have h: "get_hash toy_md5 (files example_world) ''img.nii'' = Inr ''fff''"
    using get_hash_present [where fs = "files example_world" and ?md5.0 = toy_md5, OF example_image]
    by (simp add: toy_md5_def)
  show ?thesis using C10_save_mutates_in_place [OF example_save] h by auto
qed

section \<open>network.py: UnityClient\<close>

definition be32 :: "nat \<Rightarrow> byte list" where
  "be32 n = [of_nat (n div 2 ^ 24), of_nat (n div 2 ^ 16), of_nat (n div 2 ^ 8), of_nat n]"

fun be32_value :: "byte list \<Rightarrow> nat" where
  "be32_value [a, b, c, d] = unat a * 2 ^ 24 + unat b * 2 ^ 16 + unat c * 2 ^ 8 + unat d"
| "be32_value bs = 0"

lemma be32_roundtrip:
  assumes "n < 2 ^ 32"
  shows "be32_value (be32 n) = n"
proof -
  define q1 where "q1 = n div 256"
  define q2 where "q2 = q1 div 256"
  define q3 where "q3 = q2 div 256"
  have d8: "n div 2 ^ 8 = q1" by (simp add: q1_def)
  have d16: "n div 2 ^ 16 = q2"
    using div_mult2_eq [of n 256 256] by (simp add: q1_def q2_def)
  have d24: "n div 2 ^ 24 = q3"
    using div_mult2_eq [of n 65536 256] d16 by (simp add: q3_def)
  have small: "q3 < 256" using assms unfolding d24 [symmetric] by simp
  have e1: "n = q1 * 256 + n mod 256" by (simp add: q1_def)
  have e2: "q1 = q2 * 256 + q1 mod 256" by (simp add: q2_def)
  have e3: "q2 = q3 * 256 + q2 mod 256" by (simp add: q3_def)
  have "be32_value (be32 n) = q3 mod 256 * 2 ^ 24 + q2 mod 256 * 2 ^ 16 + q1 mod 256 * 2 ^ 8 + n mod 256"
    unfolding be32_def d8 d16 d24 by (simp add: unat_of_nat)
  also have "q3 mod 256 = q3" using small by simp
  finally show ?thesis using e1 e2 e3 by simp
qed


text \<open>\<open>struct.pack('!I', n)\<close>: an unsigned 32-bit integer; out of range raises.\<close>

definition struct_pack_I :: "int \<Rightarrow> py_error + byte list" where
  "struct_pack_I n = (if 0 \<le> n \<and> n < 2 ^ 32 then Inr (be32 (nat n)) else Inl StructError)"

text \<open>
  The remote endpoint: whether it accepts the connection, and how many bytes it takes
  before a write fails (\<open>None\<close>: it takes everything).
\<close>

datatype connect_outcome = Accepts | Refuses | TimesOut

record endpoint =
  outcome :: connect_outcome
  capacity :: "nat option"

record conn =
  sent :: "byte list"
  room :: "nat option"
  closed :: bool
  logged :: "(string \<times> string) list"

type_synonym step = "conn \<Rightarrow> py_error option \<times> conn"

definition seq :: "step \<Rightarrow> step \<Rightarrow> step" where
  "seq f g st = (case f st of (None, st') \<Rightarrow> g st' | (Some e, st') \<Rightarrow> (Some e, st'))"

definition try_val :: "py_error + 'a \<Rightarrow> ('a \<Rightarrow> step) \<Rightarrow> step" where
  "try_val v k st = (case v of Inl e \<Rightarrow> (Some e, st) | Inr x \<Rightarrow> k x st)"

definition connect :: "endpoint \<Rightarrow> step" where
  "connect ep st =
     (case outcome ep of
        Accepts \<Rightarrow> (None, st)
      | Refuses \<Rightarrow> (Some ConnectionRefusedError, st)
      | TimesOut \<Rightarrow> (Some OSError, st))"

definition sendall :: "byte list \<Rightarrow> step" where
  "sendall data st =
     (case room st of
        None \<Rightarrow> (None, st\<lparr>sent := sent st @ data\<rparr>)
      | Some r \<Rightarrow>
          if length data \<le> r
          then (None, st\<lparr>sent := sent st @ data, room := Some (r - length data)\<rparr>)
          else (Some OSError, st\<lparr>sent := sent st @ take r data, room := Some 0\<rparr>))"

definition sock_close :: step where
  "sock_close st = (None, st\<lparr>closed := True\<rparr>)"

text \<open>\<open>log(msg, tag)\<close>: a no-op without a callback.\<close>

definition log_to :: "bool \<Rightarrow> string \<Rightarrow> string \<Rightarrow> step" where
  "log_to has_callback msg tag st =
     (None, if has_callback then st\<lparr>logged := logged st @ [(msg, tag)]\<rparr> else st)"

definition read_file :: "files \<Rightarrow> path \<Rightarrow> py_error + byte list" where
  "read_file fs p = (case fs p of None \<Rightarrow> Inl FileNotFoundError | Some data \<Rightarrow> Inr data)"

definition send_mesh :: "files \<Rightarrow> int \<times> path \<Rightarrow> step" where
  "send_mesh fs m =
     try_val (struct_pack_I (fst m)) (\<lambda>label_bytes.
       seq (sendall label_bytes)
         (try_val (read_file fs (snd m)) (\<lambda>data.
            try_val (struct_pack_I (int (length data))) (\<lambda>len_bytes.
              seq (sendall len_bytes) (sendall data)))))"

fun send_meshes :: "files \<Rightarrow> (int \<times> path) list \<Rightarrow> step" where
  "send_meshes fs [] = (\<lambda>st. (None, st))"
| "send_meshes fs (m # ms) = seq (send_mesh fs m) (send_meshes fs ms)"

fun decimal :: "nat \<Rightarrow> string" where
  "decimal n = (if n < 10 then [char_of (48 + n)] else decimal (n div 10) @ [char_of (48 + n mod 10)])"

declare decimal.simps [simp del]

definition send_body ::
  "endpoint \<Rightarrow> files \<Rightarrow> bool \<Rightarrow> ('d \<Rightarrow> byte list option) \<Rightarrow> (int \<times> path) list \<Rightarrow> 'd \<Rightarrow> step" where
  "send_body ep fs cb json_dumps obj_files patient_data =
     seq (connect ep)
    (seq (log_to cb ''   Connection established!'' ''success'')
    (seq (log_to cb ''   Sending patient information...'' ''warning'')
    (try_val (case json_dumps patient_data of None \<Rightarrow> Inl TypeError | Some bs \<Rightarrow> Inr bs)
       (\<lambda>json_bytes.
     try_val (struct_pack_I (int (length json_bytes))) (\<lambda>len_bytes.
     seq (sendall len_bytes)
    (seq (sendall json_bytes)
    (seq (log_to cb ''   Patient information sent'' ''success'')
    (seq (log_to cb (''   Sending '' @ decimal (length obj_files) @ '' 3D meshes...'') ''warning'')
    (try_val (struct_pack_I (int (length obj_files))) (\<lambda>count_bytes.
     seq (sendall count_bytes)
    (seq (send_meshes fs obj_files)
     sock_close)))))))))))"

definition fresh_conn :: "endpoint \<Rightarrow> conn" where
  "fresh_conn ep = \<lparr>sent = [], room = capacity ep, closed = False, logged = []\<rparr>"

text \<open>
  \<open>send\<close>: the body runs under \<open>try\<close>; the first handler takes a refused connection,
  the second every other \<open>Exception\<close>. An error that is no \<open>Exception\<close> would reach the
  caller (\<open>Inl\<close>). \<open>str_of\<close> is the text Python gives for an exception, a parameter.
  The log callback is a recorder that does not fail; the pictographs that open some of
  the messages are left out.
\<close>

definition send ::
  "endpoint \<Rightarrow> files \<Rightarrow> bool \<Rightarrow> (py_error \<Rightarrow> string) \<Rightarrow> ('d \<Rightarrow> byte list option)
     \<Rightarrow> (int \<times> path) list \<Rightarrow> 'd \<Rightarrow> (py_error + bool) \<times> conn" where
  "send ep fs cb str_of json_dumps obj_files patient_data =
     (case send_body ep fs cb json_dumps obj_files patient_data (fresh_conn ep) of
        (None, st) \<Rightarrow> (Inr True, st)
      | (Some e, st) \<Rightarrow>
          if e = ConnectionRefusedError
          then (Inr False, snd (seq (log_to cb ''VR headset connection refused!'' ''error'')
                  (log_to cb ''   Make sure Unity is running.'' ''warning'') st))
          else if is_exception e
          then (Inr False,
                snd (log_to cb (''VR headset connection error: '' @ str_of e) ''error'' st))
          else (Inl e, st))"

text \<open>
  The byte stream of the wire protocol, from the words of the specification: the length
  of the JSON text, the JSON text, the number of assets, then per asset its label, the
  length of its file and the file's bytes; every integer as 4 bytes, big-endian.
\<close>

definition wire_stream :: "byte list \<Rightarrow> (int \<times> byte list) list \<Rightarrow> byte list" where
  "wire_stream json assets =
     be32 (length json) @ json @ be32 (length assets)
       @ concat (map (\<lambda>a. be32 (nat (fst a)) @ be32 (length (snd a)) @ snd a) assets)"

subsection \<open>Steps that succeed\<close>

lemma seq_NoneE:
  assumes "seq f g st = (None, st'')"
  obtains st' where "f st = (None, st')" and "g st' = (None, st'')"
  using assms by (auto simp: seq_def split: prod.splits option.splits)

lemma try_val_NoneE:
  assumes "try_val v k st = (None, st')"
  obtains x where "v = Inr x" and "k x st = (None, st')"
  using assms by (auto simp: try_val_def split: sum.splits)

lemma sendall_NoneD:
  "sendall d st = (None, st') \<Longrightarrow>
     sent st' = sent st @ d \<and> logged st' = logged st \<and> closed st' = closed st"
  by (auto simp: sendall_def split: option.splits if_splits)

lemma log_to_NoneD:
  "log_to cb msg tag st = (None, st') \<Longrightarrow> sent st' = sent st \<and> closed st' = closed st"
  by (auto simp: log_to_def split: if_splits)

lemma connect_NoneD: "connect ep st = (None, st') \<Longrightarrow> st' = st \<and> outcome ep = Accepts"
  by (auto simp: connect_def split: connect_outcome.splits)

lemma struct_pack_I_InrD:
  "struct_pack_I n = Inr bs \<Longrightarrow> 0 \<le> n \<and> n < 2 ^ 32 \<and> bs = be32 (nat n)"
  by (auto simp: struct_pack_I_def split: if_splits)

lemma read_file_InrD: "read_file fs p = Inr data \<Longrightarrow> fs p = Some data"
  by (auto simp: read_file_def split: option.splits)

lemma send_mesh_NoneD:
  assumes "send_mesh fs m st = (None, st')"
  shows "\<exists>data. fs (snd m) = Some data \<and> 0 \<le> fst m \<and> fst m < 2 ^ 32
     \<and> int (length data) < 2 ^ 32
     \<and> sent st' = sent st @ be32 (nat (fst m)) @ be32 (length data) @ data
     \<and> closed st' = closed st"
proof -
  from assms obtain lb where lb: "struct_pack_I (fst m) = Inr lb"
    and r1: "seq (sendall lb)
         (try_val (read_file fs (snd m)) (\<lambda>data.
            try_val (struct_pack_I (int (length data))) (\<lambda>len_bytes.
              seq (sendall len_bytes) (sendall data)))) st = (None, st')"
    unfolding send_mesh_def by (erule try_val_NoneE)
  from r1 obtain s1 where s1: "sendall lb st = (None, s1)"
    and r2: "try_val (read_file fs (snd m)) (\<lambda>data.
            try_val (struct_pack_I (int (length data))) (\<lambda>len_bytes.
              seq (sendall len_bytes) (sendall data))) s1 = (None, st')"
    by (erule seq_NoneE)
  from r2 obtain data where rd: "read_file fs (snd m) = Inr data"
    and r3: "try_val (struct_pack_I (int (length data))) (\<lambda>len_bytes.
              seq (sendall len_bytes) (sendall data)) s1 = (None, st')"
    by (erule try_val_NoneE)
  from r3 obtain ln where ln: "struct_pack_I (int (length data)) = Inr ln"
    and r4: "seq (sendall ln) (sendall data) s1 = (None, st')"
    by (erule try_val_NoneE)
  from r4 obtain s2 where s2: "sendall ln s1 = (None, s2)" and s3: "sendall data s2 = (None, st')"
    by (erule seq_NoneE)
  note a = struct_pack_I_InrD [OF lb] struct_pack_I_InrD [OF ln] read_file_InrD [OF rd]
    sendall_NoneD [OF s1] sendall_NoneD [OF s2] sendall_NoneD [OF s3]
  show ?thesis using a by simp
qed

lemma send_meshes_NoneD:
  "send_meshes fs ms st = (None, st') \<Longrightarrow>
     \<exists>datas. map (\<lambda>m. fs (snd m)) ms = map Some datas
       \<and> (\<forall>m \<in> set ms. 0 \<le> fst m \<and> fst m < 2 ^ 32)
       \<and> (\<forall>d \<in> set datas. int (length d) < 2 ^ 32)
       \<and> sent st' = sent st @ concat (map (\<lambda>a. be32 (nat (fst a)) @ be32 (length (snd a)) @ snd a)
                                    (zip (map fst ms) datas))
       \<and> closed st' = closed st"
proof (induction ms arbitrary: st)
  case Nil
  then show ?case by simp
next
  case (Cons m ms)
  from Cons.prems obtain s1 where m: "send_mesh fs m st = (None, s1)"
    and rest: "send_meshes fs ms s1 = (None, st')"
    by (auto elim: seq_NoneE)
  from send_mesh_NoneD [OF m] obtain data where d: "fs (snd m) = Some data"
    "0 \<le> fst m" "fst m < 2 ^ 32" "int (length data) < 2 ^ 32"
    "sent s1 = sent st @ be32 (nat (fst m)) @ be32 (length data) @ data"
    "closed s1 = closed st"
    by blast
  from Cons.IH [OF rest] obtain datas where ds: "map (\<lambda>m. fs (snd m)) ms = map Some datas"
    "\<forall>m \<in> set ms. 0 \<le> fst m \<and> fst m < 2 ^ 32"
    "\<forall>d \<in> set datas. int (length d) < 2 ^ 32"
    "sent st' = sent s1 @ concat (map (\<lambda>a. be32 (nat (fst a)) @ be32 (length (snd a)) @ snd a)
                                    (zip (map fst ms) datas))"
    "closed st' = closed s1"
    by blast
  show ?case
    using d ds by (intro exI [of _ "data # datas"]) simp
qed

lemma send_body_NoneD:
  assumes "send_body ep fs cb json_dumps obj_files patient_data st = (None, st')"
  shows "\<exists>json datas. json_dumps patient_data = Some json
       \<and> map (\<lambda>m. fs (snd m)) obj_files = map Some datas
       \<and> outcome ep = Accepts
       \<and> int (length json) < 2 ^ 32 \<and> int (length obj_files) < 2 ^ 32
       \<and> (\<forall>m \<in> set obj_files. 0 \<le> fst m \<and> fst m < 2 ^ 32)
       \<and> (\<forall>d \<in> set datas. int (length d) < 2 ^ 32)
       \<and> sent st' = sent st @ wire_stream json (zip (map fst obj_files) datas)
       \<and> closed st'"
proof -
  from assms obtain s1 s2 s3 json hdr s4 s5 s6 s7 cnt s8 s9 where
    c: "connect ep st = (None, s1)"
    and l1: "log_to cb ''   Connection established!'' ''success'' s1 = (None, s2)"
    and l2: "log_to cb ''   Sending patient information...'' ''warning'' s2 = (None, s3)"
    and j: "(case json_dumps patient_data of None \<Rightarrow> Inl TypeError | Some bs \<Rightarrow> Inr bs) = Inr json"
    and h: "struct_pack_I (int (length json)) = Inr hdr"
    and a1: "sendall hdr s3 = (None, s4)"
    and a2: "sendall json s4 = (None, s5)"
    and l3: "log_to cb ''   Patient information sent'' ''success'' s5 = (None, s6)"
    and l4: "log_to cb (''   Sending '' @ decimal (length obj_files) @ '' 3D meshes...'') ''warning'' s6
               = (None, s7)"
    and n: "struct_pack_I (int (length obj_files)) = Inr cnt"
    and a3: "sendall cnt s7 = (None, s8)"
    and ms: "send_meshes fs obj_files s8 = (None, s9)"
    and cl: "sock_close s9 = (None, st')"
    unfolding send_body_def by (elim seq_NoneE try_val_NoneE) blast
  from j have js: "json_dumps patient_data = Some json" by (simp split: option.splits)
  from send_meshes_NoneD [OF ms] obtain datas where
    ds: "map (\<lambda>m. fs (snd m)) obj_files = map Some datas"
      "\<forall>m \<in> set obj_files. 0 \<le> fst m \<and> fst m < 2 ^ 32"
      "\<forall>d \<in> set datas. int (length d) < 2 ^ 32"
      "sent s9 = sent s8 @ concat (map (\<lambda>a. be32 (nat (fst a)) @ be32 (length (snd a)) @ snd a)
                                    (zip (map fst obj_files) datas))"
      "closed s9 = closed s8"
    by blast
  have len: "length datas = length obj_files"
    using arg_cong [OF ds(1), of length] by simp
  note f = connect_NoneD [OF c] log_to_NoneD [OF l1] log_to_NoneD [OF l2]
    struct_pack_I_InrD [OF h] sendall_NoneD [OF a1] sendall_NoneD [OF a2]
    log_to_NoneD [OF l3] log_to_NoneD [OF l4] struct_pack_I_InrD [OF n]
    sendall_NoneD [OF a3]
  have snt: "sent st' = sent st @ wire_stream json (zip (map fst obj_files) datas)"
    using f ds(4) cl by (auto simp: wire_stream_def len sock_close_def)
  have "closed st'" using cl by (auto simp: sock_close_def)
  with js ds(1-3) f snt show ?thesis by blast
qed

subsection \<open>Steps that fail\<close>










lemma length_be32: "length (be32 n) = 4"
  by (simp add: be32_def)

section \<open>Claims about UnityClient.send\<close>

text \<open>
  Claim C1: when \<open>send\<close> returns true, the connection was accepted, the payload was
  serialised, every mesh file was read, and the bytes sent are exactly the stream of the
  protocol: the 4-byte length of the JSON text, the JSON text, the 4-byte count of the
  assets, then for each asset, in the order of the input list, its 4-byte label, the
  4-byte length of its file and the file's bytes; every length, count and label lies
  in the unsigned 32-bit range, and each is encoded in 4 bytes, most significant first.
\<close>

theorem C1_send_wire_format:
  assumes "send ep fs cb str_of json_dumps obj_files patient_data = (Inr True, st)"
  shows "\<exists>json datas. json_dumps patient_data = Some json
       \<and> map (\<lambda>m. fs (snd m)) obj_files = map Some datas
       \<and> sent st = wire_stream json (zip (map fst obj_files) datas)
       \<and> int (length json) < 2 ^ 32 \<and> int (length obj_files) < 2 ^ 32
       \<and> (\<forall>m \<in> set obj_files. 0 \<le> fst m \<and> fst m < 2 ^ 32)
       \<and> (\<forall>d \<in> set datas. int (length d) < 2 ^ 32)
       \<and> outcome ep = Accepts \<and> closed st
       \<and> (\<forall>n. n < 2 ^ 32 \<longrightarrow> length (be32 n) = 4 \<and> be32_value (be32 n) = n)"
proof -
  from assms have body:
    "send_body ep fs cb json_dumps obj_files patient_data (fresh_conn ep) = (None, st)"
    by (auto simp: send_def split: prod.splits option.splits if_splits)
  have empty: "sent (fresh_conn ep) = []" by (simp add: fresh_conn_def)
  from send_body_NoneD [OF body] empty be32_roundtrip length_be32
  show ?thesis by auto
qed

definition listening :: endpoint where
  "listening = \<lparr>outcome = Accepts, capacity = None\<rparr>"


definition mesh_files :: files where
  "mesh_files = [''liver.obj'' \<mapsto> [1, 2], ''tumor.obj'' \<mapsto> [3]]"

definition no_text :: "py_error \<Rightarrow> string" where
  "no_text e = []"

definition braces :: "unit \<Rightarrow> byte list option" where
  "braces d = Some [123, 125]"

lemma example_send_ok:
  "fst (send listening mesh_files True no_text braces [(8, ''liver.obj''), (9, ''tumor.obj'')] ())
     = Inr True"
  by (simp add: send_def send_body_def seq_def try_val_def connect_def log_to_def sendall_def
      sock_close_def struct_pack_I_def send_mesh_def read_file_def fresh_conn_def
      listening_def mesh_files_def braces_def)

theorem C1_send_wire_format_witness:
  "fst (send listening mesh_files True no_text braces [(8, ''liver.obj''), (9, ''tumor.obj'')] ())
     = Inr True
   \<and> sent (snd (send listening mesh_files True no_text braces [(8, ''liver.obj''), (9, ''tumor.obj'')] ()))
     = [0, 0, 0, 2, 123, 125, 0, 0, 0, 2,
        0, 0, 0, 8, 0, 0, 0, 2, 1, 2,
        0, 0, 0, 9, 0, 0, 0, 1, 3]"
proof -
  have s: "send listening mesh_files True no_text braces [(8, ''liver.obj''), (9, ''tumor.obj'')] ()
      = (Inr True, snd (send listening mesh_files True no_text braces
           [(8, ''liver.obj''), (9, ''tumor.obj'')] ()))"
    using example_send_ok by (simp add: prod_eq_iff)
  from C1_send_wire_format [OF s] obtain json datas where
    j: "braces () = Some json"
    and d: "map (\<lambda>m. mesh_files (snd m)) [(8 :: int, ''liver.obj''), (9, ''tumor.obj'')]
              = map Some datas"
    and w: "sent (snd (send listening mesh_files True no_text braces
           [(8, ''liver.obj''), (9, ''tumor.obj'')] ()))
        = wire_stream json (zip (map fst [(8 :: int, ''liver.obj''), (9, ''tumor.obj'')]) datas)"
    by blast
  from j have json: "json = [123, 125]" by (simp add: braces_def)
  from d have "map Some datas = [Some [1, 2], Some [3]]" by (simp add: mesh_files_def)
  then have datas: "datas = [[1, 2], [3]]" by (auto simp: map_eq_Cons_conv)
  show ?thesis
    using example_send_ok w unfolding json datas
    by (simp add: wire_stream_def be32_def)
qed



section \<open>engine.py: MeshGenerator\<close>











record gen_state =
  gfiles :: files
  obj_files :: "(int \<times> path) list"
  glog :: "(string \<times> string) list"



subsection \<open>An example volume\<close>



subsection \<open>The labels\<close>




subsection \<open>The loop\<close>







section \<open>Claims about MeshGenerator.generate\<close>



end
